theory Spec2Isabelle
  imports Main "HOL-Library.Multiset"
begin

section \<open>The MongoDB policy adapter (adapter.go)\<close>

text \<open>
  A shallow embedding of \<^verbatim>\<open>adapter.go\<close>. Go strings are byte sequences, and so is
  \<^typ>\<open>string\<close>; the zero value of a Go string is the empty list. A Go run-time panic is a
  value of type \<open>panic\<close>, and a function that may panic returns \<open>panic + 'a\<close>.
\<close>

subsection \<open>Data\<close>

text \<open>\<^verbatim>\<open>type CasbinRule struct { PType, V0, V1, V2, V3, V4, V5 string }\<close>\<close>

record CasbinRule =
  PType :: string
  V0 :: string
  V1 :: string
  V2 :: string
  V3 :: string
  V4 :: string
  V5 :: string

text \<open>
  The panics the adapter can raise: the three run-time errors of Go that its expressions can
  meet (\<^verbatim>\<open>key[:1]\<close>, \<^verbatim>\<open>rule[i]\<close>, a field of a nil pointer) and \<^verbatim>\<open>panic(err)\<close> with the
  message of a driver error.
\<close>

datatype panic =
  SliceBoundsOutOfRange
| IndexOutOfRange
| NilPointerDereference
| PanicErr string

text \<open>Sequencing of steps that may panic: the first panic ends the run.\<close>

definition and_then :: "panic + 'a \<Rightarrow> ('a \<Rightarrow> panic + 'b) \<Rightarrow> panic + 'b" where
  "and_then r f = (case r of Inl p \<Rightarrow> Inl p | Inr x \<Rightarrow> f x)"

text \<open>Go's \<^verbatim>\<open>xs[i]\<close> and \<^verbatim>\<open>s[:n]\<close>: both panic out of range.\<close>

definition go_index :: "'a list \<Rightarrow> nat \<Rightarrow> panic + 'a" where
  "go_index xs i = (if i < length xs then Inr (xs ! i) else Inl IndexOutOfRange)"

definition go_slice_to :: "'a list \<Rightarrow> nat \<Rightarrow> panic + 'a list" where
  "go_slice_to s n = (if n \<le> length s then Inr (take n s) else Inl SliceBoundsOutOfRange)"

text \<open>
  Modelled from the spec: the policy model of the casbin engine (package \<^verbatim>\<open>model\<close>, which
  is not part of this repository): "keyed first by a one-character section identifier, then
  by ptype itself, and holds, for each ptype, an ordered collection of Policy Rules".
  In Go, \<^verbatim>\<open>type Model map[string]AssertionMap\<close> and
  \<^verbatim>\<open>type AssertionMap map[string]*Assertion\<close>. A Go map is held as an association list
  with one entry per key, in the order in which \<^verbatim>\<open>range\<close> visits them (an order the
  run time chooses); every theorem below holds for every such order. Each key owns its
  Assertion (no entry is nil and no two entries share one Assertion, as the engine builds
  them), so the Assertion is held by value, and of its fields only \<^verbatim>\<open>Policy\<close>, the one the
  adapter reads and writes.
\<close>

record Assertion =
  Policy :: "string list list"

type_synonym AssertionMap = "(string \<times> Assertion) list"

type_synonym Model = "(string \<times> AssertionMap) list"

text \<open>
  \<^verbatim>\<open>model[sec]\<close>: a missing section is the nil map, which has no entries.
  \<^verbatim>\<open>model[sec][key]\<close>: a missing entry is the nil pointer, here \<open>None\<close>.
\<close>

definition section_of :: "Model \<Rightarrow> string \<Rightarrow> AssertionMap" where
  "section_of model sec = (case map_of model sec of None \<Rightarrow> [] | Some am \<Rightarrow> am)"

definition assertion_at :: "Model \<Rightarrow> string \<Rightarrow> string \<Rightarrow> Assertion option" where
  "assertion_at model sec key = map_of (section_of model sec) key"

text \<open>Writing through an entry that exists: the entry is replaced where it stands.\<close>

fun assign :: "'k \<Rightarrow> 'v \<Rightarrow> ('k \<times> 'v) list \<Rightarrow> ('k \<times> 'v) list" where
  "assign k v [] = []"
| "assign k v ((k', v') # kvs) =
     (if k' = k then (k, v) # kvs else (k', v') # assign k v kvs)"

definition store_assertion :: "Model \<Rightarrow> string \<Rightarrow> string \<Rightarrow> Assertion \<Rightarrow> Model" where
  "store_assertion model sec key ast =
     assign sec (assign key ast (section_of model sec)) model"

subsection \<open>The rule codec\<close>

text \<open>
  \<^verbatim>\<open>savePolicyLine\<close> (lines 226 to 250): the zero record, then \<^verbatim>\<open>line.PType = ptype\<close>, then
  for each \<open>i\<close> from 0 to 5 \<^verbatim>\<open>if len(rule) > i { line.Vi = rule[i] }\<close>.
\<close>

definition savePolicyLine :: "string \<Rightarrow> string list \<Rightarrow> panic + CasbinRule" where
  "savePolicyLine ptype rule =
     (let line = \<lparr>PType = [], V0 = [], V1 = [], V2 = [], V3 = [], V4 = [], V5 = []\<rparr>;
          line = line\<lparr>PType := ptype\<rparr>
      in
      and_then (if length rule > 0
                then and_then (go_index rule 0) (\<lambda>v. Inr (line\<lparr>V0 := v\<rparr>))
                else Inr line) (\<lambda>line.
      and_then (if length rule > 1
                then and_then (go_index rule 1) (\<lambda>v. Inr (line\<lparr>V1 := v\<rparr>))
                else Inr line) (\<lambda>line.
      and_then (if length rule > 2
                then and_then (go_index rule 2) (\<lambda>v. Inr (line\<lparr>V2 := v\<rparr>))
                else Inr line) (\<lambda>line.
      and_then (if length rule > 3
                then and_then (go_index rule 3) (\<lambda>v. Inr (line\<lparr>V3 := v\<rparr>))
                else Inr line) (\<lambda>line.
      and_then (if length rule > 4
                then and_then (go_index rule 4) (\<lambda>v. Inr (line\<lparr>V4 := v\<rparr>))
                else Inr line) (\<lambda>line.
      and_then (if length rule > 5
                then and_then (go_index rule 5) (\<lambda>v. Inr (line\<lparr>V5 := v\<rparr>))
                else Inr line) (\<lambda>line.
      Inr line)))))))"

text \<open>
  \<^verbatim>\<open>loadPolicyLine\<close>, lines 171 to 207: the value of \<^verbatim>\<open>tokens\<close> at the label
  \<^verbatim>\<open>LineEnd\<close>. Each \<^verbatim>\<open>goto LineEnd\<close> is the \<open>else\<close> branch that returns the tokens
  gathered so far.
\<close>

definition loadPolicyLine_tokens :: "CasbinRule \<Rightarrow> string list" where
  "loadPolicyLine_tokens line =
     (let tokens = [] in
      if V0 line \<noteq> [] then let tokens = tokens @ [V0 line] in
        if V1 line \<noteq> [] then let tokens = tokens @ [V1 line] in
          if V2 line \<noteq> [] then let tokens = tokens @ [V2 line] in
            if V3 line \<noteq> [] then let tokens = tokens @ [V3 line] in
              if V4 line \<noteq> [] then let tokens = tokens @ [V4 line] in
                if V5 line \<noteq> [] then let tokens = tokens @ [V5 line] in tokens
                else tokens
              else tokens
            else tokens
          else tokens
        else tokens
      else tokens)"

text \<open>
  \<^verbatim>\<open>loadPolicyLine\<close> (lines 167 to 210): \<^verbatim>\<open>sec := key[:1]\<close> panics on the empty key, before
  any field is read; at \<^verbatim>\<open>LineEnd\<close>, \<^verbatim>\<open>model[sec][key].Policy\<close> reads through the pointer
  \<^verbatim>\<open>model[sec][key]\<close>, which panics when the model has no such entry.
\<close>

definition loadPolicyLine :: "CasbinRule \<Rightarrow> Model \<Rightarrow> panic + Model" where
  "loadPolicyLine line model =
     (let key = PType line in
      and_then (go_slice_to key 1) (\<lambda>sec.
      let tokens = loadPolicyLine_tokens line in
      (case assertion_at model sec key of
         None \<Rightarrow> Inl NilPointerDereference
       | Some ast \<Rightarrow>
           Inr (store_assertion model sec key (ast\<lparr>Policy := Policy ast @ [tokens]\<rparr>)))))"

subsection \<open>The storage session\<close>

text \<open>
  \<^verbatim>\<open>type Adapter struct { url string; session *mgo.Session; collection *mgo.Collection }\<close>.
  A handle is held by the name of what it points to; \<open>None\<close> is the nil pointer.
\<close>

record Adapter =
  url :: string
  session :: "string option"
  collection :: "string option"

text \<open>
  Modelled from the spec: the collection the handle points to, which lives in the database
  server (the driver \<^verbatim>\<open>mgo\<close> and the server are not part of this repository). The store
  is the list of the records of the collection, or \<open>None\<close> when the collection does not
  exist. \<^verbatim>\<open>DropCollection\<close> "empties the collection"; on a collection that does not exist
  the server answers with the error "ns not found". \<^verbatim>\<open>Insert\<close> "bulk-inserts" its
  documents (an insert of no document leaves the store as it is), and on failure "the
  collection is left in whatever partial state the underlying bulk insert left it". Every call of the driver may also fail for a reason of the
  environment (network, permissions): the fault, when there is one, is the message of the
  error (and for \<^verbatim>\<open>Insert\<close> the number of documents written before it).
\<close>

type_synonym store = "CasbinRule list option"

definition contents :: "store \<Rightarrow> CasbinRule list" where
  "contents db = (case db of None \<Rightarrow> [] | Some ds \<Rightarrow> ds)"

definition DropCollection :: "string option \<Rightarrow> store \<Rightarrow> string option \<times> store" where
  "DropCollection fault db =
     (case fault of
        Some msg \<Rightarrow> (Some msg, db)
      | None \<Rightarrow> (case db of None \<Rightarrow> (Some ''ns not found'', None) | Some ds \<Rightarrow> (None, None)))"

definition write_docs :: "CasbinRule list \<Rightarrow> store \<Rightarrow> store" where
  "write_docs ds db = (if ds = [] then db else Some (contents db @ ds))"

definition Insert :: "(string \<times> nat) option \<Rightarrow> CasbinRule list \<Rightarrow> store \<Rightarrow> string option \<times> store" where
  "Insert fault ds db =
     (case fault of
        Some (msg, n) \<Rightarrow> (Some msg, write_docs (take n ds) db)
      | None \<Rightarrow> (None, write_docs ds db))"

text \<open>
  Modelled from the spec: the cursor of \<^verbatim>\<open>Find(nil).Iter()\<close>, "every Stored Record from the
  collection (no filter: full scan)", in "the storage iteration order (not guaranteed to
  match original save order)": the records \<^verbatim>\<open>Next\<close> delivers, in order, and the error
  \<^verbatim>\<open>Close\<close> reports. A full scan of a store delivers its records in some order.
\<close>

record Iter =
  docs :: "CasbinRule list"
  close_err :: "string option"

definition full_scan :: "store \<Rightarrow> Iter \<Rightarrow> bool" where
  "full_scan db iter = (mset (docs iter) = mset (contents db) \<and> close_err iter = None)"

text \<open>The faults of the environment during one \<^verbatim>\<open>SavePolicy\<close>.\<close>

record faults =
  drop_fault :: "string option"
  insert_fault :: "(string \<times> nat) option"

text \<open>\<^verbatim>\<open>createTable\<close> (lines 151, 152) has an empty body.\<close>

definition createTable :: "Adapter \<Rightarrow> store \<Rightarrow> store" where
  "createTable a db = db"

text \<open>
  \<^verbatim>\<open>dropTable\<close> (lines 154 to 165): nothing to do on a nil handle; an error of the drop other
  than "ns not found" is raised as a panic.
\<close>

definition dropTable :: "string option \<Rightarrow> Adapter \<Rightarrow> store \<Rightarrow> panic + store" where
  "dropTable fault a db =
     (if collection a = None then Inr db
      else (case DropCollection fault db of
              (None, db') \<Rightarrow> Inr db'
            | (Some msg, db') \<Rightarrow>
                if msg \<noteq> ''ns not found'' then Inl (PanicErr msg) else Inr db'))"

subsection \<open>Load and save\<close>

text \<open>\<^verbatim>\<open>for iter.Next(&line) { loadPolicyLine(line, model) }\<close> (lines 216 to 218)\<close>

fun LoadPolicy_loop :: "CasbinRule list \<Rightarrow> Model \<Rightarrow> panic + Model" where
  "LoadPolicy_loop [] model = Inr model"
| "LoadPolicy_loop (line # rest) model =
     and_then (loadPolicyLine line model) (LoadPolicy_loop rest)"

text \<open>
  \<^verbatim>\<open>LoadPolicy\<close> (lines 213 to 224). \<^verbatim>\<open>a.collection.Find\<close> reads through the handle, and
  panics on a nil one. The result is the error returned and the model as the loop left it.
\<close>

definition LoadPolicy :: "Iter \<Rightarrow> Adapter \<Rightarrow> Model \<Rightarrow> panic + (string option \<times> Model)" where
  "LoadPolicy iter a model =
     (if collection a = None then Inl NilPointerDereference
      else and_then (LoadPolicy_loop (docs iter) model) (\<lambda>model.
        (case close_err iter of
           Some err \<Rightarrow> Inr (Some err, model)
         | None \<Rightarrow> Inr (None, model))))"

text \<open>
  The two nested loops of \<^verbatim>\<open>SavePolicy\<close> (lines 259 to 264, and again 266 to 271):
  \<^verbatim>\<open>for _, rule := range ast.Policy\<close> inside \<^verbatim>\<open>for ptype, ast := range model[sec]\<close>,
  each rule appending its record to \<^verbatim>\<open>lines\<close>.
\<close>

fun range_Policy :: "string \<Rightarrow> string list list \<Rightarrow> CasbinRule list \<Rightarrow> panic + CasbinRule list" where
  "range_Policy ptype [] lines = Inr lines"
| "range_Policy ptype (rule # rest) lines =
     and_then (savePolicyLine ptype rule) (\<lambda>line. range_Policy ptype rest (lines @ [line]))"

fun range_section :: "AssertionMap \<Rightarrow> CasbinRule list \<Rightarrow> panic + CasbinRule list" where
  "range_section [] lines = Inr lines"
| "range_section ((ptype, ast) # rest) lines =
     and_then (range_Policy ptype (Policy ast) lines) (range_section rest)"

text \<open>
  \<^verbatim>\<open>SavePolicy\<close> (lines 253 to 275). \<^verbatim>\<open>a.collection.Insert\<close> reads through the handle, and
  panics on a nil one. The result is the error returned and the store as it is left.
\<close>

definition SavePolicy :: "faults \<Rightarrow> Adapter \<Rightarrow> Model \<Rightarrow> store \<Rightarrow> panic + (string option \<times> store)" where
  "SavePolicy env a model db =
     and_then (dropTable (drop_fault env) a db) (\<lambda>db.
     let db = createTable a db in
     and_then (range_section (section_of model ''p'') []) (\<lambda>lines.
     and_then (range_section (section_of model ''g'') lines) (\<lambda>lines.
     if collection a = None then Inl NilPointerDereference
     else Inr (Insert (insert_fault env) lines db))))"

subsection \<open>The mutation stubs\<close>

text \<open>
  \<^verbatim>\<open>AddPolicy\<close>, \<^verbatim>\<open>RemovePolicy\<close>, \<^verbatim>\<open>RemoveFilteredPolicy\<close> (lines 277 to 290): each is the
  single statement \<^verbatim>\<open>return errors.New("not implemented")\<close>. The result is the error
  returned and the store as it is left.
\<close>

definition AddPolicy :: "Adapter \<Rightarrow> string \<Rightarrow> string \<Rightarrow> string list \<Rightarrow> store \<Rightarrow> string option \<times> store" where
  "AddPolicy a sec ptype rule db = (Some ''not implemented'', db)"

definition RemovePolicy :: "Adapter \<Rightarrow> string \<Rightarrow> string \<Rightarrow> string list \<Rightarrow> store \<Rightarrow> string option \<times> store" where
  "RemovePolicy a sec ptype rule db = (Some ''not implemented'', db)"

definition RemoveFilteredPolicy ::
  "Adapter \<Rightarrow> string \<Rightarrow> string \<Rightarrow> int \<Rightarrow> string list \<Rightarrow> store \<Rightarrow> string option \<times> store" where
  "RemoveFilteredPolicy a sec ptype fieldIndex fieldValues db = (Some ''not implemented'', db)"

subsection \<open>The codec as the specification words it\<close>

text \<open>
  "maps orderedFields[0..5] into v0..v5; fields beyond index 5 are silently dropped.
  Missing trailing fields are left empty."
\<close>

definition field_or_empty :: "string list \<Rightarrow> nat \<Rightarrow> string" where
  "field_or_empty orderedFields i =
     (if i < length orderedFields then orderedFields ! i else [])"

definition encode_spec :: "string \<Rightarrow> string list \<Rightarrow> CasbinRule" where
  "encode_spec ptype orderedFields =
     \<lparr>PType = ptype,
      V0 = field_or_empty orderedFields 0, V1 = field_or_empty orderedFields 1,
      V2 = field_or_empty orderedFields 2, V3 = field_or_empty orderedFields 3,
      V4 = field_or_empty orderedFields 4, V5 = field_or_empty orderedFields 5\<rparr>"

text \<open>"scanning v0, v1, ..., v5 in order and stopping at the first empty field"\<close>

definition fields_spec :: "CasbinRule \<Rightarrow> string list" where
  "fields_spec line =
     takeWhile (\<lambda>v. v \<noteq> []) [V0 line, V1 line, V2 line, V3 line, V4 line, V5 line]"

text \<open>"one Stored Record per rule across all ptypes under section p and then all ptypes under section g"\<close>

definition section_records :: "AssertionMap \<Rightarrow> CasbinRule list" where
  "section_records am =
     concat (map (\<lambda>(ptype, ast). map (encode_spec ptype) (Policy ast)) am)"

text \<open>
  The rules of a model, as the multiset of the pairs (ptype, fields) of its sections "p" and
  "g".
\<close>

definition rule_pairs :: "AssertionMap \<Rightarrow> (string \<times> string list) list" where
  "rule_pairs am = concat (map (\<lambda>(ptype, ast). map (Pair ptype) (Policy ast)) am)"

definition policy_rules :: "Model \<Rightarrow> (string \<times> string list) multiset" where
  "policy_rules model =
     mset (rule_pairs (section_of model ''p'')) + mset (rule_pairs (section_of model ''g''))"

text \<open>
  A rule the record can hold: at most six fields, none of them empty. A model whose sections
  "p" and "g" hold such rules only, under policy types that start with the name of their
  section (as the engine names them: p, p2, g, g2).
\<close>

definition storable_rule :: "string list \<Rightarrow> bool" where
  "storable_rule rule = (length rule \<le> 6 \<and> [] \<notin> set rule)"

definition storable_section :: "string \<Rightarrow> AssertionMap \<Rightarrow> bool" where
  "storable_section sec am =
     list_all (\<lambda>(ptype, ast). take 1 ptype = sec \<and> list_all storable_rule (Policy ast)) am"

definition storable_model :: "Model \<Rightarrow> bool" where
  "storable_model model =
     (storable_section ''p'' (section_of model ''p'') \<and>
      storable_section ''g'' (section_of model ''g''))"

text \<open>
  A fresh empty model for a given one: it declares the policy types of the given model in
  the sections "p" and "g", and holds no rule there.
\<close>

definition declares :: "Model \<Rightarrow> string \<Rightarrow> AssertionMap \<Rightarrow> bool" where
  "declares fresh sec am = list_all (\<lambda>(ptype, ast). assertion_at fresh sec ptype \<noteq> None) am"

definition fresh_for :: "Model \<Rightarrow> Model \<Rightarrow> bool" where
  "fresh_for model fresh =
     (policy_rules fresh = {#} \<and>
      declares fresh ''p'' (section_of model ''p'') \<and>
      declares fresh ''g'' (section_of model ''g''))"

text \<open>
  "the first character of ptype": the bytes of the first UTF-8 encoded character of the
  string (one to four bytes, by the leading byte). A byte that does not start a well-formed
  sequence counts as a character of its own, as Go's \<^verbatim>\<open>range\<close> over a string reads it.
\<close>

definition utf8_continuation :: "char \<Rightarrow> bool" where
  "utf8_continuation c = (128 \<le> (of_char c :: nat) \<and> (of_char c :: nat) < 192)"

definition utf8_width :: "char \<Rightarrow> nat" where
  "utf8_width c =
     (let b = (of_char c :: nat) in
      if b < 128 then 1
      else if 192 \<le> b \<and> b < 224 then 2
      else if 224 \<le> b \<and> b < 240 then 3
      else if 240 \<le> b \<and> b < 248 then 4
      else 1)"

definition first_character_spec :: "string \<Rightarrow> string" where
  "first_character_spec s =
     (case s of
        [] \<Rightarrow> []
      | c # rest \<Rightarrow>
          (let w = utf8_width c in
           if w - 1 \<le> length rest \<and> list_all utf8_continuation (take (w - 1) rest)
           then take w s else [c]))"

subsection \<open>Example data\<close>

text \<open>A model that declares the policy types p and g and holds no rule, and an open adapter.\<close>

definition empty_model :: Model where
  "empty_model = [(''p'', [(''p'', \<lparr>Policy = []\<rparr>)]), (''g'', [(''g'', \<lparr>Policy = []\<rparr>)])]"

definition open_adapter :: Adapter where
  "open_adapter =
     \<lparr>url = ''127.0.0.1:27017'', session = Some ''127.0.0.1:27017'',
      collection = Some ''casbin.casbin_rule''\<rparr>"

definition no_faults :: faults where
  "no_faults = \<lparr>drop_fault = None, insert_fault = None\<rparr>"

text \<open>
  The model of the scenario of the specification: one rule under p, one under g, and a
  section e that the adapter does not persist.
\<close>

definition scenario_model :: Model where
  "scenario_model =
     [(''p'', [(''p'', \<lparr>Policy = [[''alice'', ''data1'', ''read'']]\<rparr>)]),
      (''g'', [(''g'', \<lparr>Policy = [[''alice'', ''admin'']]\<rparr>)]),
      (''e'', [(''e'', \<lparr>Policy = [[''some(where (p.eft == allow))'']]\<rparr>)])]"

text \<open>A model whose only rule has seven fields, none of them empty.\<close>

definition long_rule_model :: Model where
  "long_rule_model =
     [(''p'', [(''p'', \<lparr>Policy = [[''a'', ''b'', ''c'', ''d'', ''e'', ''f'', ''g'']]\<rparr>)]),
      (''g'', [(''g'', \<lparr>Policy = []\<rparr>)])]"

section \<open>Properties of the codec\<close>

lemma savePolicyLine_encode: "savePolicyLine ptype rule = Inr (encode_spec ptype rule)"
  by (simp add: savePolicyLine_def encode_spec_def field_or_empty_def and_then_def go_index_def)

lemma loadPolicyLine_tokens_fields: "loadPolicyLine_tokens line = fields_spec line"
  by (simp add: loadPolicyLine_tokens_def fields_spec_def)

lemma field_or_empty_Nil [simp]: "field_or_empty [] i = []"
  by (simp add: field_or_empty_def)

lemma field_or_empty_Cons_0 [simp]: "field_or_empty (x # xs) 0 = x"
  by (simp add: field_or_empty_def)

lemma field_or_empty_Cons_Suc [simp]: "field_or_empty (x # xs) (Suc i) = field_or_empty xs i"
  by (simp add: field_or_empty_def)

lemma field_or_empty_Cons_numeral [simp]:
  "field_or_empty (x # xs) (numeral n) = field_or_empty xs (pred_numeral n)"
  by (simp add: field_or_empty_def numeral_eq_Suc)

lemma upto_six_cases:
  obtains "rule = []"
  | a where "rule = [a]"
  | a b where "rule = [a, b]"
  | a b c where "rule = [a, b, c]"
  | a b c d where "rule = [a, b, c, d]"
  | a b c d e where "rule = [a, b, c, d, e]"
  | a b c d e f rest where "rule = a # b # c # d # e # f # rest"
  by (metis list.exhaust)

lemma fields_spec_encode:
  "fields_spec (encode_spec ptype rule) = takeWhile (\<lambda>v. v \<noteq> []) (take 6 rule)"
  by (cases rule rule: upto_six_cases) (simp_all add: fields_spec_def encode_spec_def)

lemma fields_spec_encode_storable:
  assumes "length rule \<le> 6" and "[] \<notin> set rule"
  shows "fields_spec (encode_spec ptype rule) = rule"
proof -
  have "takeWhile (\<lambda>v. v \<noteq> []) rule = rule"
    using assms(2) by simp metis
  then show ?thesis
    using assms(1) by (simp add: fields_spec_encode)
qed

lemma encode_spec_take: "encode_spec ptype rule = encode_spec ptype (take 6 rule)"
  by (simp add: encode_spec_def field_or_empty_def)

lemma encode_spec_long:
  assumes "length rule > 6"
  shows "encode_spec ptype rule =
    \<lparr>PType = ptype, V0 = rule ! 0, V1 = rule ! 1, V2 = rule ! 2, V3 = rule ! 3,
     V4 = rule ! 4, V5 = rule ! 5\<rparr>"
  using assms by (cases rule rule: upto_six_cases) (simp_all add: encode_spec_def)

lemma PType_encode_spec [simp]: "PType (encode_spec ptype rule) = ptype"
  by (simp add: encode_spec_def)

lemma length_fields_spec: "length (fields_spec line) \<le> 6"
proof -
  have "length (fields_spec line) \<le> length [V0 line, V1 line, V2 line, V3 line, V4 line, V5 line]"
    unfolding fields_spec_def by (rule length_takeWhile_le)
  then show ?thesis by simp
qed

lemma fields_spec_nonempty: "[] \<notin> set (fields_spec line)"
  unfolding fields_spec_def by (auto dest: set_takeWhileD)

text \<open>The three outcomes of \<^verbatim>\<open>loadPolicyLine\<close>.\<close>

lemma loadPolicyLine_empty_ptype:
  "PType line = [] \<Longrightarrow> loadPolicyLine line model = Inl SliceBoundsOutOfRange"
  by (simp add: loadPolicyLine_def go_slice_to_def and_then_def Let_def)

lemma loadPolicyLine_no_assertion:
  assumes "PType line \<noteq> []" and "assertion_at model (take 1 (PType line)) (PType line) = None"
  shows "loadPolicyLine line model = Inl NilPointerDereference"
proof -
  have "1 \<le> length (PType line)"
    using assms(1) by (cases "PType line") simp_all
  then show ?thesis
    using assms(2) by (simp add: loadPolicyLine_def go_slice_to_def and_then_def Let_def)
qed

lemma loadPolicyLine_files:
  assumes "PType line \<noteq> []" and "assertion_at model (take 1 (PType line)) (PType line) = Some ast"
  shows "loadPolicyLine line model =
    Inr (store_assertion model (take 1 (PType line)) (PType line)
          (ast\<lparr>Policy := Policy ast @ [fields_spec line]\<rparr>))"
proof -
  have "1 \<le> length (PType line)"
    using assms(1) by (cases "PType line") simp_all
  then show ?thesis
    using assms(2)
    by (simp add: loadPolicyLine_def go_slice_to_def and_then_def Let_def
        loadPolicyLine_tokens_fields)
qed

lemma loadPolicyLine_InrD:
  assumes "loadPolicyLine line model = Inr model'"
  shows "PType line \<noteq> [] \<and>
    (\<exists>ast. assertion_at model (take 1 (PType line)) (PType line) = Some ast \<and>
      model' = store_assertion model (take 1 (PType line)) (PType line)
                 (ast\<lparr>Policy := Policy ast @ [fields_spec line]\<rparr>))"
proof (cases "PType line = []")
  case True
  then show ?thesis using assms by (simp add: loadPolicyLine_empty_ptype)
next
  case False
  show ?thesis
  proof (cases "assertion_at model (take 1 (PType line)) (PType line)")
    case None
    then show ?thesis using False assms by (simp add: loadPolicyLine_no_assertion)
  next
    case (Some ast)
    then show ?thesis using False assms by (simp add: loadPolicyLine_files)
  qed
qed

text \<open>Reading a model after a write through one of its entries.\<close>

lemma assign_absent: "k \<notin> fst ` set kvs \<Longrightarrow> assign k v kvs = kvs"
  by (induction kvs) auto

lemma map_of_assign_present:
  "k \<in> fst ` set kvs \<Longrightarrow> map_of (assign k v kvs) = (map_of kvs)(k \<mapsto> v)"
proof (induction kvs)
  case Nil
  then show ?case by simp
next
  case (Cons kv kvs)
  show ?case
  proof (cases "fst kv = k")
    case True
    then show ?thesis by (cases kv) (simp add: fun_eq_iff)
  next
    case False
    then have "k \<in> fst ` set kvs"
      using Cons.prems by auto
    then have "map_of (assign k v kvs) = (map_of kvs)(k \<mapsto> v)"
      by (rule Cons.IH)
    then show ?thesis
      using False by (cases kv) (auto simp: fun_eq_iff)
  qed
qed

lemma section_of_store_assertion:
  "section_of (store_assertion model sec key ast) s =
    (if s = sec then assign key ast (section_of model sec) else section_of model s)"
proof (cases "sec \<in> fst ` set model")
  case True
  then show ?thesis
    by (simp add: section_of_def store_assertion_def map_of_assign_present)
next
  case False
  then have "map_of model sec = None"
    by (simp add: map_of_eq_None_iff)
  then show ?thesis
    using False by (simp add: section_of_def store_assertion_def assign_absent)
qed

lemma assertion_at_store_assertion:
  assumes "assertion_at model sec key = Some ast"
  shows "assertion_at (store_assertion model sec key ast') s k =
    (if s = sec \<and> k = key then Some ast' else assertion_at model s k)"
proof -
  have "key \<in> fst ` set (section_of model sec)"
    using assms by (auto simp: assertion_at_def dest: map_of_SomeD intro: rev_image_eqI)
  then show ?thesis
    by (simp add: assertion_at_def section_of_store_assertion map_of_assign_present)
qed

section \<open>The claims about the codec\<close>

text \<open>
  C1, as amended. For every non-empty ptype, every model that holds an assertion under
  the first character of ptype and ptype, and every list of at most six fields none of which
  is empty: encoding never fails, and decoding the encoded record appends exactly that list
  of fields to the policy of that assertion, in the section named by the first character of
  ptype and under the same ptype. (With the empty ptype, decoding panics.)
\<close>

theorem savePolicyLine_loadPolicyLine_roundtrip:
  assumes "length rule \<le> 6" and "[] \<notin> set rule"
    and "ptype \<noteq> []" and "assertion_at model (take 1 ptype) ptype = Some ast"
  shows "and_then (savePolicyLine ptype rule) (\<lambda>line. loadPolicyLine line model) =
    Inr (store_assertion model (take 1 ptype) ptype (ast\<lparr>Policy := Policy ast @ [rule]\<rparr>))"
proof -
  have "loadPolicyLine (encode_spec ptype rule) model =
    Inr (store_assertion model (take 1 ptype) ptype
          (ast\<lparr>Policy := Policy ast @ [fields_spec (encode_spec ptype rule)]\<rparr>))"
    using loadPolicyLine_files [of "encode_spec ptype rule" model ast] assms(3,4) by simp
  then show ?thesis
    using assms(1,2) by (simp add: savePolicyLine_encode and_then_def fields_spec_encode_storable)
qed

theorem savePolicyLine_loadPolicyLine_roundtrip_witness:
  "length [''alice'', ''data1'', ''read''] \<le> 6 \<and> [] \<notin> set [''alice'', ''data1'', ''read''] \<and>
   ''p'' \<noteq> [] \<and> assertion_at empty_model (take 1 ''p'') ''p'' = Some \<lparr>Policy = []\<rparr> \<and>
   and_then (savePolicyLine ''p'' [''alice'', ''data1'', ''read''])
     (\<lambda>line. loadPolicyLine line empty_model) =
   Inr [(''p'', [(''p'', \<lparr>Policy = [[''alice'', ''data1'', ''read'']]\<rparr>)]),
        (''g'', [(''g'', \<lparr>Policy = []\<rparr>)])]"
proof -
  have h1: "length [''alice'', ''data1'', ''read''] \<le> 6" by simp
  have h2: "[] \<notin> set [''alice'', ''data1'', ''read'']" by simp
  have h3: "''p'' \<noteq> []" by simp
  have h4: "assertion_at empty_model (take 1 ''p'') ''p'' = Some \<lparr>Policy = []\<rparr>"
    by (simp add: assertion_at_def section_of_def empty_model_def)
  have "store_assertion empty_model (take 1 ''p'') ''p''
          (\<lparr>Policy = []\<rparr>\<lparr>Policy := Policy \<lparr>Policy = []\<rparr> @ [[''alice'', ''data1'', ''read'']]\<rparr>) =
        [(''p'', [(''p'', \<lparr>Policy = [[''alice'', ''data1'', ''read'']]\<rparr>)]),
         (''g'', [(''g'', \<lparr>Policy = []\<rparr>)])]"
    by (simp add: store_assertion_def section_of_def empty_model_def)
  then show ?thesis
    using savePolicyLine_loadPolicyLine_roundtrip [OF h1 h2 h3 h4] h1 h2 h3 h4 by simp
qed

text \<open>
  C1 as stated fails at the empty ptype: the record is encoded, and decoding it panics at
  \<^verbatim>\<open>key[:1]\<close>, although the model holds an assertion under the empty section and key.
\<close>

theorem roundtrip_empty_ptype_counterexample:
  "savePolicyLine [] [''alice''] =
     Inr \<lparr>PType = [], V0 = ''alice'', V1 = [], V2 = [], V3 = [], V4 = [], V5 = []\<rparr> \<and>
   loadPolicyLine \<lparr>PType = [], V0 = ''alice'', V1 = [], V2 = [], V3 = [], V4 = [], V5 = []\<rparr>
     [([], [([], \<lparr>Policy = []\<rparr>)])] = Inl SliceBoundsOutOfRange"
  by (simp add: savePolicyLine_encode encode_spec_def loadPolicyLine_empty_ptype)

text \<open>
  C2. For every stored record and every model, decoding either panics (on the empty ptype,
  or when the model holds no assertion for the ptype) or appends to the policy of the
  assertion the fields v0, v1, ..., v5 taken in this order up to, and without, the first
  empty one. The record with v0 = "alice", v1 = "", v2 = "read" is decoded to ["alice"].
\<close>

theorem loadPolicyLine_stops_at_first_empty:
  "loadPolicyLine line model =
    (if PType line = [] then Inl SliceBoundsOutOfRange
     else case assertion_at model (take 1 (PType line)) (PType line) of
       None \<Rightarrow> Inl NilPointerDereference
     | Some ast \<Rightarrow>
         Inr (store_assertion model (take 1 (PType line)) (PType line)
           (ast\<lparr>Policy := Policy ast @
              [takeWhile (\<lambda>v. v \<noteq> []) [V0 line, V1 line, V2 line, V3 line, V4 line, V5 line]]\<rparr>)))"
proof (cases "PType line = []")
  case True
  then show ?thesis by (simp add: loadPolicyLine_empty_ptype)
next
  case False
  then show ?thesis
    by (cases "assertion_at model (take 1 (PType line)) (PType line)")
      (simp_all add: loadPolicyLine_no_assertion loadPolicyLine_files fields_spec_def)
qed

theorem loadPolicyLine_stops_at_first_empty_witness:
  "loadPolicyLine
     \<lparr>PType = ''p'', V0 = ''alice'', V1 = [], V2 = ''read'', V3 = [], V4 = [], V5 = []\<rparr>
     empty_model =
   Inr [(''p'', [(''p'', \<lparr>Policy = [[''alice'']]\<rparr>)]), (''g'', [(''g'', \<lparr>Policy = []\<rparr>)])]"
  using loadPolicyLine_stops_at_first_empty
    [of "\<lparr>PType = ''p'', V0 = ''alice'', V1 = [], V2 = ''read'', V3 = [], V4 = [], V5 = []\<rparr>"
      empty_model]
  by (simp add: assertion_at_def section_of_def store_assertion_def empty_model_def)




text \<open>
  C5, as amended. For every rule with more than six fields, encoding stores the fields at
  the indices 0 to 5 and nothing of the rest: the record is the one of the first six fields.
  Decoding this record (under a non-empty ptype for which the model holds an assertion)
  appends the first six fields up to, and without, the first empty one among them: exactly
  the six fields when none of them is empty.
\<close>

theorem savePolicyLine_drops_beyond_six:
  assumes "length rule > 6"
  shows "savePolicyLine ptype rule =
      Inr \<lparr>PType = ptype, V0 = rule ! 0, V1 = rule ! 1, V2 = rule ! 2, V3 = rule ! 3,
           V4 = rule ! 4, V5 = rule ! 5\<rparr> \<and>
    savePolicyLine ptype rule = savePolicyLine ptype (take 6 rule) \<and>
    (ptype \<noteq> [] \<and> assertion_at model (take 1 ptype) ptype = Some ast \<longrightarrow>
      and_then (savePolicyLine ptype rule) (\<lambda>line. loadPolicyLine line model) =
        Inr (store_assertion model (take 1 ptype) ptype
              (ast\<lparr>Policy := Policy ast @ [takeWhile (\<lambda>v. v \<noteq> []) (take 6 rule)]\<rparr>))) \<and>
    ([] \<notin> set (take 6 rule) \<longrightarrow>
      takeWhile (\<lambda>v. v \<noteq> []) (take 6 rule) = take 6 rule \<and> length (take 6 rule) = 6)"
proof (intro conjI impI)
  show "savePolicyLine ptype rule =
      Inr \<lparr>PType = ptype, V0 = rule ! 0, V1 = rule ! 1, V2 = rule ! 2, V3 = rule ! 3,
           V4 = rule ! 4, V5 = rule ! 5\<rparr>"
    using assms by (simp add: savePolicyLine_encode encode_spec_long)
  show "savePolicyLine ptype rule = savePolicyLine ptype (take 6 rule)"
    using encode_spec_take [of ptype rule] by (simp add: savePolicyLine_encode)
  show "and_then (savePolicyLine ptype rule) (\<lambda>line. loadPolicyLine line model) =
        Inr (store_assertion model (take 1 ptype) ptype
              (ast\<lparr>Policy := Policy ast @ [takeWhile (\<lambda>v. v \<noteq> []) (take 6 rule)]\<rparr>))"
    if "ptype \<noteq> [] \<and> assertion_at model (take 1 ptype) ptype = Some ast"
    using that loadPolicyLine_files [of "encode_spec ptype rule" model ast]
    by (simp add: savePolicyLine_encode and_then_def fields_spec_encode)
  show "takeWhile (\<lambda>v. v \<noteq> []) (take 6 rule) = take 6 rule" if "[] \<notin> set (take 6 rule)"
    using that by simp metis
  show "length (take 6 rule) = 6"
    using assms by simp
qed

theorem savePolicyLine_drops_beyond_six_witness:
  "length [''a'', ''b'', ''c'', ''d'', ''e'', ''f'', ''g''] > 6 \<and>
   savePolicyLine ''p'' [''a'', ''b'', ''c'', ''d'', ''e'', ''f'', ''g''] =
     Inr \<lparr>PType = ''p'', V0 = ''a'', V1 = ''b'', V2 = ''c'', V3 = ''d'', V4 = ''e'', V5 = ''f''\<rparr> \<and>
   and_then (savePolicyLine ''p'' [''a'', ''b'', ''c'', ''d'', ''e'', ''f'', ''g''])
     (\<lambda>line. loadPolicyLine line empty_model) =
   Inr [(''p'', [(''p'', \<lparr>Policy = [[''a'', ''b'', ''c'', ''d'', ''e'', ''f'']]\<rparr>)]),
        (''g'', [(''g'', \<lparr>Policy = []\<rparr>)])]"
proof -
  have h: "length [''a'', ''b'', ''c'', ''d'', ''e'', ''f'', ''g''] > 6" by simp
  have a: "''p'' \<noteq> [] \<and> assertion_at empty_model (take 1 ''p'') ''p'' = Some \<lparr>Policy = []\<rparr>"
    by (simp add: assertion_at_def section_of_def empty_model_def)
  have s: "store_assertion empty_model (take 1 ''p'') ''p''
          (\<lparr>Policy = []\<rparr>\<lparr>Policy := Policy \<lparr>Policy = []\<rparr> @
            [takeWhile (\<lambda>v. v \<noteq> []) (take 6 [''a'', ''b'', ''c'', ''d'', ''e'', ''f'', ''g''])]\<rparr>) =
        [(''p'', [(''p'', \<lparr>Policy = [[''a'', ''b'', ''c'', ''d'', ''e'', ''f'']]\<rparr>)]),
         (''g'', [(''g'', \<lparr>Policy = []\<rparr>)])]"
    by (simp add: store_assertion_def section_of_def empty_model_def)
  note t = savePolicyLine_drops_beyond_six [OF h, of "''p''" empty_model "\<lparr>Policy = []\<rparr>"]
  from t have e1: "savePolicyLine ''p'' [''a'', ''b'', ''c'', ''d'', ''e'', ''f'', ''g''] =
     Inr \<lparr>PType = ''p'', V0 = ''a'', V1 = ''b'', V2 = ''c'', V3 = ''d'', V4 = ''e'', V5 = ''f''\<rparr>"
    by simp
  from t a have e2: "and_then (savePolicyLine ''p'' [''a'', ''b'', ''c'', ''d'', ''e'', ''f'', ''g''])
     (\<lambda>line. loadPolicyLine line empty_model) =
     Inr (store_assertion empty_model (take 1 ''p'') ''p''
          (\<lparr>Policy = []\<rparr>\<lparr>Policy := Policy \<lparr>Policy = []\<rparr> @
            [takeWhile (\<lambda>v. v \<noteq> []) (take 6 [''a'', ''b'', ''c'', ''d'', ''e'', ''f'', ''g''])]\<rparr>))"
    by blast
  show ?thesis
    using h e1 e2 [unfolded s] by (intro conjI)
qed

text \<open>
  C5 as stated fails on a rule of seven fields whose second field is empty: the record
  holds the first six fields, and decoding it yields one field, not six.
\<close>

theorem long_rule_with_empty_field_counterexample:
  "savePolicyLine ''p'' [''alice'', [], ''read'', ''x'', ''y'', ''z'', ''w''] =
     Inr \<lparr>PType = ''p'', V0 = ''alice'', V1 = [], V2 = ''read'', V3 = ''x'', V4 = ''y'', V5 = ''z''\<rparr> \<and>
   loadPolicyLine
     \<lparr>PType = ''p'', V0 = ''alice'', V1 = [], V2 = ''read'', V3 = ''x'', V4 = ''y'', V5 = ''z''\<rparr>
     empty_model =
   Inr [(''p'', [(''p'', \<lparr>Policy = [[''alice'']]\<rparr>)]), (''g'', [(''g'', \<lparr>Policy = []\<rparr>)])]"
proof -
  have "assertion_at empty_model (take 1 ''p'') ''p'' = Some \<lparr>Policy = []\<rparr>"
    by (simp add: assertion_at_def section_of_def empty_model_def)
  then have "loadPolicyLine
     \<lparr>PType = ''p'', V0 = ''alice'', V1 = [], V2 = ''read'', V3 = ''x'', V4 = ''y'', V5 = ''z''\<rparr>
     empty_model =
   Inr [(''p'', [(''p'', \<lparr>Policy = [[''alice'']]\<rparr>)]), (''g'', [(''g'', \<lparr>Policy = []\<rparr>)])]"
    by (simp add: loadPolicyLine_files fields_spec_def store_assertion_def section_of_def
        empty_model_def)
  then show ?thesis
    by (simp add: savePolicyLine_encode encode_spec_def)
qed

lemma first_character_spec_ascii:
  assumes "s \<noteq> []" and "(of_char (hd s) :: nat) < 128"
  shows "first_character_spec s = [hd s]"
proof -
  from assms(1) obtain c rest where s: "s = c # rest"
    by (cases s) auto
  have "utf8_width c = 1"
    using assms(2) by (simp add: s utf8_width_def)
  then show ?thesis
    by (simp add: s first_character_spec_def)
qed

text \<open>
  C6, as amended. For every stored record with a non-empty ptype for which the model holds
  an assertion under the first byte of the ptype and the ptype, decoding files the rule in
  the section named by the first byte of the ptype (\<^verbatim>\<open>key[:1]\<close>), under the ptype: the policy
  of that assertion gains one rule, and every other assertion of the model is as it was.
  Decoding files a rule in no other case. The first byte is the first character of a ptype
  that starts with an ASCII character: "p" is filed in section "p" and "g2" in section "g".
\<close>

theorem loadPolicyLine_section_is_first_byte:
  "(PType line \<noteq> [] \<and> assertion_at model [hd (PType line)] (PType line) = Some ast \<longrightarrow>
      (\<exists>model' tokens. loadPolicyLine line model = Inr model' \<and>
         assertion_at model' [hd (PType line)] (PType line) =
           Some (ast\<lparr>Policy := Policy ast @ [tokens]\<rparr>) \<and>
         (\<forall>sec key. (sec, key) \<noteq> ([hd (PType line)], PType line) \<longrightarrow>
            assertion_at model' sec key = assertion_at model sec key))) \<and>
   (loadPolicyLine line model = Inr model' \<longrightarrow>
      PType line \<noteq> [] \<and> assertion_at model [hd (PType line)] (PType line) \<noteq> None) \<and>
   (PType line \<noteq> [] \<and> (of_char (hd (PType line)) :: nat) < 128 \<longrightarrow>
      first_character_spec (PType line) = [hd (PType line)])"
proof (intro conjI impI)
  assume pre: "PType line \<noteq> [] \<and> assertion_at model [hd (PType line)] (PType line) = Some ast"
  then have sec: "take 1 (PType line) = [hd (PType line)]"
    by (cases "PType line") simp_all
  define model1 where
    "model1 = store_assertion model [hd (PType line)] (PType line)
                (ast\<lparr>Policy := Policy ast @ [fields_spec line]\<rparr>)"
  from pre have at: "assertion_at model [hd (PType line)] (PType line) = Some ast"
    by simp
  have "loadPolicyLine line model = Inr model1"
    unfolding model1_def
    using loadPolicyLine_files [of line model ast] pre unfolding sec by simp
  moreover have "assertion_at model1 [hd (PType line)] (PType line) =
      Some (ast\<lparr>Policy := Policy ast @ [fields_spec line]\<rparr>)"
    unfolding model1_def assertion_at_store_assertion [OF at] by simp
  moreover have "\<forall>sec key. (sec, key) \<noteq> ([hd (PType line)], PType line) \<longrightarrow>
      assertion_at model1 sec key = assertion_at model sec key"
    unfolding model1_def assertion_at_store_assertion [OF at] by simp
  ultimately show "\<exists>model' tokens. loadPolicyLine line model = Inr model' \<and>
         assertion_at model' [hd (PType line)] (PType line) =
           Some (ast\<lparr>Policy := Policy ast @ [tokens]\<rparr>) \<and>
         (\<forall>sec key. (sec, key) \<noteq> ([hd (PType line)], PType line) \<longrightarrow>
            assertion_at model' sec key = assertion_at model sec key)"
    by blast
next
  assume run: "loadPolicyLine line model = Inr model'"
  then have ne: "PType line \<noteq> []"
    and ex: "\<exists>a. assertion_at model (take 1 (PType line)) (PType line) = Some a"
    using loadPolicyLine_InrD by blast+
  from ne have sec: "take 1 (PType line) = [hd (PType line)]"
    by (cases "PType line") simp_all
  from ne show "PType line \<noteq> []" .
  from ex show "assertion_at model [hd (PType line)] (PType line) \<noteq> None"
    unfolding sec by auto
next
  assume "PType line \<noteq> [] \<and> (of_char (hd (PType line)) :: nat) < 128"
  then show "first_character_spec (PType line) = [hd (PType line)]"
    by (simp add: first_character_spec_ascii)
qed

theorem loadPolicyLine_section_is_first_byte_witness:
  "PType \<lparr>PType = ''g2'', V0 = ''alice'', V1 = ''admin'', V2 = [], V3 = [], V4 = [], V5 = []\<rparr>
     \<noteq> [] \<and>
   [hd (PType \<lparr>PType = ''g2'', V0 = ''alice'', V1 = ''admin'', V2 = [], V3 = [], V4 = [], V5 = []\<rparr>)]
     = ''g'' \<and>
   first_character_spec ''g2'' = ''g'' \<and>
   assertion_at
     [(''p'', [(''p'', \<lparr>Policy = []\<rparr>)]),
      (''g'', [(''g'', \<lparr>Policy = []\<rparr>), (''g2'', \<lparr>Policy = []\<rparr>)])]
     ''g'' ''g2'' = Some \<lparr>Policy = []\<rparr> \<and>
   loadPolicyLine
     \<lparr>PType = ''g2'', V0 = ''alice'', V1 = ''admin'', V2 = [], V3 = [], V4 = [], V5 = []\<rparr>
     [(''p'', [(''p'', \<lparr>Policy = []\<rparr>)]),
      (''g'', [(''g'', \<lparr>Policy = []\<rparr>), (''g2'', \<lparr>Policy = []\<rparr>)])] =
   Inr [(''p'', [(''p'', \<lparr>Policy = []\<rparr>)]),
        (''g'', [(''g'', \<lparr>Policy = []\<rparr>), (''g2'', \<lparr>Policy = [[''alice'', ''admin'']]\<rparr>)])] \<and>
   (\<exists>model'. loadPolicyLine
      \<lparr>PType = ''g2'', V0 = ''alice'', V1 = ''admin'', V2 = [], V3 = [], V4 = [], V5 = []\<rparr>
      [(''p'', [(''p'', \<lparr>Policy = []\<rparr>)]),
       (''g'', [(''g'', \<lparr>Policy = []\<rparr>), (''g2'', \<lparr>Policy = []\<rparr>)])] = Inr model' \<and>
      assertion_at model' ''g'' ''g'' = Some \<lparr>Policy = []\<rparr> \<and>
      assertion_at model' ''p'' ''p'' = Some \<lparr>Policy = []\<rparr>)"
proof -
  let ?line = "\<lparr>PType = ''g2'', V0 = ''alice'', V1 = ''admin'', V2 = [], V3 = [], V4 = [], V5 = []\<rparr>"
  let ?model = "[(''p'', [(''p'', \<lparr>Policy = []\<rparr>)]),
                 (''g'', [(''g'', \<lparr>Policy = []\<rparr>), (''g2'', \<lparr>Policy = []\<rparr>)])]"
  have ne: "PType ?line \<noteq> []" by simp
  have hd: "[hd (PType ?line)] = ''g''" by simp
  have ascii: "(of_char (hd (PType ?line)) :: nat) < 128" by simp
  have at: "assertion_at ?model ''g'' ''g2'' = Some \<lparr>Policy = []\<rparr>"
    by (simp add: assertion_at_def section_of_def)
  have run: "loadPolicyLine ?line ?model =
   Inr [(''p'', [(''p'', \<lparr>Policy = []\<rparr>)]),
        (''g'', [(''g'', \<lparr>Policy = []\<rparr>), (''g2'', \<lparr>Policy = [[''alice'', ''admin'']]\<rparr>)])]"
    by code_simp
  have at': "assertion_at ?model [hd (PType ?line)] (PType ?line) = Some \<lparr>Policy = []\<rparr>"
    by (simp add: assertion_at_def section_of_def)
  note t = loadPolicyLine_section_is_first_byte [of ?line ?model "\<lparr>Policy = []\<rparr>"]
  from t ne ascii have "first_character_spec (PType ?line) = [hd (PType ?line)]"
    by blast
  then have fc: "first_character_spec ''g2'' = ''g''"
    by simp
  from t ne at' obtain model' where m: "loadPolicyLine ?line ?model = Inr model'"
    and other: "\<forall>sec key. (sec, key) \<noteq> ([hd (PType ?line)], PType ?line) \<longrightarrow>
            assertion_at model' sec key = assertion_at ?model sec key"
    by blast
  from other have "assertion_at model' ''g'' ''g'' = assertion_at ?model ''g'' ''g''"
    and "assertion_at model' ''p'' ''p'' = assertion_at ?model ''p'' ''p''"
    by simp_all
  then have "assertion_at model' ''g'' ''g'' = Some \<lparr>Policy = []\<rparr>"
    and "assertion_at model' ''p'' ''p'' = Some \<lparr>Policy = []\<rparr>"
    by (simp_all add: assertion_at_def section_of_def)
  with m have ex: "\<exists>model'. loadPolicyLine ?line ?model = Inr model' \<and>
      assertion_at model' ''g'' ''g'' = Some \<lparr>Policy = []\<rparr> \<and>
      assertion_at model' ''p'' ''p'' = Some \<lparr>Policy = []\<rparr>"
    by blast
  show ?thesis
    using ne hd fc at run ex by (intro conjI)
qed

text \<open>
  C6 as stated fails in two ways. A ptype that starts with a character of two bytes (here
  the bytes C3 A9 of e with an acute accent) is filed under the section named by its first
  byte, which is not its first character; in a model that names the section by the
  character, decoding panics. And a record with the empty ptype is filed nowhere: decoding
  panics at \<^verbatim>\<open>key[:1]\<close>.
\<close>

theorem section_not_first_character_counterexample:
  "first_character_spec [CHR 0xC3, CHR 0xA9] = [CHR 0xC3, CHR 0xA9] \<and>
   loadPolicyLine
     \<lparr>PType = [CHR 0xC3, CHR 0xA9], V0 = ''alice'', V1 = [], V2 = [], V3 = [], V4 = [], V5 = []\<rparr>
     [([CHR 0xC3], [([CHR 0xC3, CHR 0xA9], \<lparr>Policy = []\<rparr>)])] =
   Inr [([CHR 0xC3], [([CHR 0xC3, CHR 0xA9], \<lparr>Policy = [[''alice'']]\<rparr>)])] \<and>
   [CHR 0xC3] \<noteq> first_character_spec [CHR 0xC3, CHR 0xA9] \<and>
   loadPolicyLine
     \<lparr>PType = [CHR 0xC3, CHR 0xA9], V0 = ''alice'', V1 = [], V2 = [], V3 = [], V4 = [], V5 = []\<rparr>
     [([CHR 0xC3, CHR 0xA9], [([CHR 0xC3, CHR 0xA9], \<lparr>Policy = []\<rparr>)])] =
   Inl NilPointerDereference \<and>
   loadPolicyLine
     \<lparr>PType = [], V0 = ''bob'', V1 = ''data2'', V2 = ''write'', V3 = [], V4 = [], V5 = []\<rparr>
     [([], [([], \<lparr>Policy = []\<rparr>)])] =
   Inl SliceBoundsOutOfRange"
proof -
  have fc: "first_character_spec [CHR 0xC3, CHR 0xA9] = [CHR 0xC3, CHR 0xA9]"
    by (simp add: first_character_spec_def utf8_width_def utf8_continuation_def)
  have byte: "loadPolicyLine
     \<lparr>PType = [CHR 0xC3, CHR 0xA9], V0 = ''alice'', V1 = [], V2 = [], V3 = [], V4 = [], V5 = []\<rparr>
     [([CHR 0xC3], [([CHR 0xC3, CHR 0xA9], \<lparr>Policy = []\<rparr>)])] =
   Inr [([CHR 0xC3], [([CHR 0xC3, CHR 0xA9], \<lparr>Policy = [[''alice'']]\<rparr>)])]"
    by (simp add: loadPolicyLine_files assertion_at_def section_of_def store_assertion_def
        fields_spec_def)
  have differ: "[CHR 0xC3] \<noteq> first_character_spec [CHR 0xC3, CHR 0xA9]"
    unfolding fc by simp
  have nil: "loadPolicyLine
     \<lparr>PType = [CHR 0xC3, CHR 0xA9], V0 = ''alice'', V1 = [], V2 = [], V3 = [], V4 = [], V5 = []\<rparr>
     [([CHR 0xC3, CHR 0xA9], [([CHR 0xC3, CHR 0xA9], \<lparr>Policy = []\<rparr>)])] =
   Inl NilPointerDereference"
    by (simp add: loadPolicyLine_no_assertion assertion_at_def section_of_def)
  have empty: "loadPolicyLine
     \<lparr>PType = [], V0 = ''bob'', V1 = ''data2'', V2 = ''write'', V3 = [], V4 = [], V5 = []\<rparr>
     [([], [([], \<lparr>Policy = []\<rparr>)])] =
   Inl SliceBoundsOutOfRange"
    by (simp add: loadPolicyLine_empty_ptype)
  show ?thesis
    using fc byte differ nil empty by (intro conjI)
qed

text \<open>
  C10. Whatever the stored record holds, the list of fields that decoding appends to the
  policy model has at most six elements, none of them empty.
\<close>

theorem loadPolicyLine_appends_storable_rule:
  assumes "loadPolicyLine line model = Inr model'"
  shows "\<exists>ast tokens.
    assertion_at model (take 1 (PType line)) (PType line) = Some ast \<and>
    model' = store_assertion model (take 1 (PType line)) (PType line)
               (ast\<lparr>Policy := Policy ast @ [tokens]\<rparr>) \<and>
    length tokens \<le> 6 \<and> [] \<notin> set tokens"
  using loadPolicyLine_InrD [OF assms] length_fields_spec [of line] fields_spec_nonempty [of line]
  by blast

theorem loadPolicyLine_appends_storable_rule_witness:
  "loadPolicyLine
     \<lparr>PType = ''p'', V0 = ''a'', V1 = ''b'', V2 = ''c'', V3 = ''d'', V4 = ''e'', V5 = ''f''\<rparr>
     empty_model =
   Inr [(''p'', [(''p'', \<lparr>Policy = [[''a'', ''b'', ''c'', ''d'', ''e'', ''f'']]\<rparr>)]),
        (''g'', [(''g'', \<lparr>Policy = []\<rparr>)])] \<and>
   (\<exists>ast tokens.
      [(''p'', [(''p'', \<lparr>Policy = [[''a'', ''b'', ''c'', ''d'', ''e'', ''f'']]\<rparr>)]),
       (''g'', [(''g'', \<lparr>Policy = []\<rparr>)])] =
      store_assertion empty_model ''p'' ''p'' (ast\<lparr>Policy := Policy ast @ [tokens]\<rparr>) \<and>
      length tokens \<le> 6 \<and> [] \<notin> set tokens)"
proof -
  have run: "loadPolicyLine
     \<lparr>PType = ''p'', V0 = ''a'', V1 = ''b'', V2 = ''c'', V3 = ''d'', V4 = ''e'', V5 = ''f''\<rparr>
     empty_model =
   Inr [(''p'', [(''p'', \<lparr>Policy = [[''a'', ''b'', ''c'', ''d'', ''e'', ''f'']]\<rparr>)]),
        (''g'', [(''g'', \<lparr>Policy = []\<rparr>)])]"
    by code_simp
  show ?thesis
    using loadPolicyLine_appends_storable_rule [OF run] run by auto
qed

section \<open>Properties of the storage operations\<close>

lemma contents_write_docs_None [simp]: "contents (write_docs ds None) = ds"
  by (simp add: contents_def write_docs_def)

lemma dropTable_nil_handle: "collection a = None \<Longrightarrow> dropTable fault a db = Inr db"
  by (simp add: dropTable_def)

lemma dropTable_no_fault: "collection a \<noteq> None \<Longrightarrow> dropTable None a db = Inr None"
  by (cases db) (auto simp: dropTable_def DropCollection_def)

lemma dropTable_other_error:
  assumes "collection a \<noteq> None" and "DropCollection fault db = (Some msg, db')"
    and "msg \<noteq> ''ns not found''"
  shows "dropTable fault a db = Inl (PanicErr msg)"
  using assms by (simp add: dropTable_def)

lemma range_Policy_records:
  "range_Policy ptype rules lines = Inr (lines @ map (encode_spec ptype) rules)"
  by (induction rules arbitrary: lines) (simp_all add: savePolicyLine_encode and_then_def)

lemma range_section_records: "range_section am lines = Inr (lines @ section_records am)"
proof (induction am arbitrary: lines)
  case Nil
  then show ?case by (simp add: section_records_def)
next
  case (Cons entry am)
  obtain ptype ast where entry: "entry = (ptype, ast)"
    by (cases entry)
  show ?case
    by (simp add: entry range_Policy_records and_then_def Cons.IH section_records_def)
qed

lemma SavePolicy_no_fault:
  assumes "collection a \<noteq> None" and "drop_fault env = None" and "insert_fault env = None"
  shows "SavePolicy env a model db =
    Inr (None, write_docs (section_records (section_of model ''p'') @
                           section_records (section_of model ''g'')) None)"
  using assms
  by (simp add: SavePolicy_def dropTable_no_fault createTable_def range_section_records
      and_then_def Insert_def)

lemma length_section_records:
  "length (section_records am) = (\<Sum>(ptype, ast)\<leftarrow>am. length (Policy ast))"
  by (induction am) (auto simp: section_records_def)

section \<open>The claims about the storage operations\<close>

text \<open>
  C7. When the handle of the collection is set and the driver reports no fault, SavePolicy
  returns no error and leaves in the collection, whatever it held before, exactly the
  records of the rules of section "p" followed by those of section "g", one record per rule
  (the encoding of the rule under its ptype). The result depends on the model through its
  sections "p" and "g" only: no other section is persisted.
\<close>

theorem SavePolicy_replaces_records:
  assumes "collection a \<noteq> None" and "drop_fault env = None" and "insert_fault env = None"
  shows "(\<exists>db'. SavePolicy env a model db = Inr (None, db') \<and>
      contents db' =
        section_records (section_of model ''p'') @ section_records (section_of model ''g'') \<and>
      length (contents db') =
        (\<Sum>(ptype, ast)\<leftarrow>section_of model ''p''. length (Policy ast)) +
        (\<Sum>(ptype, ast)\<leftarrow>section_of model ''g''. length (Policy ast))) \<and>
    (\<forall>model'. section_of model' ''p'' = section_of model ''p'' \<and>
               section_of model' ''g'' = section_of model ''g'' \<longrightarrow>
       SavePolicy env a model' db = SavePolicy env a model db)"
proof (intro conjI allI impI)
  show "\<exists>db'. SavePolicy env a model db = Inr (None, db') \<and>
      contents db' =
        section_records (section_of model ''p'') @ section_records (section_of model ''g'') \<and>
      length (contents db') =
        (\<Sum>(ptype, ast)\<leftarrow>section_of model ''p''. length (Policy ast)) +
        (\<Sum>(ptype, ast)\<leftarrow>section_of model ''g''. length (Policy ast))"
    using SavePolicy_no_fault [OF assms, of model db]
    by (simp add: length_section_records)
next
  fix model'
  assume "section_of model' ''p'' = section_of model ''p'' \<and>
          section_of model' ''g'' = section_of model ''g''"
  then show "SavePolicy env a model' db = SavePolicy env a model db"
    by (simp add: SavePolicy_def)
qed

theorem SavePolicy_replaces_records_witness:
  "collection open_adapter \<noteq> None \<and> drop_fault no_faults = None \<and>
   insert_fault no_faults = None \<and>
   SavePolicy no_faults open_adapter scenario_model
     (Some [\<lparr>PType = ''p'', V0 = ''bob'', V1 = ''data2'', V2 = ''write'', V3 = [], V4 = [], V5 = []\<rparr>]) =
   Inr (None,
     Some [\<lparr>PType = ''p'', V0 = ''alice'', V1 = ''data1'', V2 = ''read'', V3 = [], V4 = [], V5 = []\<rparr>,
           \<lparr>PType = ''g'', V0 = ''alice'', V1 = ''admin'', V2 = [], V3 = [], V4 = [], V5 = []\<rparr>])"
proof -
  have h1: "collection open_adapter \<noteq> None" by (simp add: open_adapter_def)
  have h2: "drop_fault no_faults = None" by (simp add: no_faults_def)
  have h3: "insert_fault no_faults = None" by (simp add: no_faults_def)
  have recs: "section_records (section_of scenario_model ''p'') @
              section_records (section_of scenario_model ''g'') =
     [\<lparr>PType = ''p'', V0 = ''alice'', V1 = ''data1'', V2 = ''read'', V3 = [], V4 = [], V5 = []\<rparr>,
      \<lparr>PType = ''g'', V0 = ''alice'', V1 = ''admin'', V2 = [], V3 = [], V4 = [], V5 = []\<rparr>]"
    by (simp add: section_records_def section_of_def scenario_model_def encode_spec_def)
  from SavePolicy_replaces_records [OF h1 h2 h3, of scenario_model
      "Some [\<lparr>PType = ''p'', V0 = ''bob'', V1 = ''data2'', V2 = ''write'', V3 = [], V4 = [], V5 = []\<rparr>]"]
  obtain db' where run: "SavePolicy no_faults open_adapter scenario_model
     (Some [\<lparr>PType = ''p'', V0 = ''bob'', V1 = ''data2'', V2 = ''write'', V3 = [], V4 = [], V5 = []\<rparr>]) =
       Inr (None, db')"
    and c: "contents db' = section_records (section_of scenario_model ''p'') @
              section_records (section_of scenario_model ''g'')"
    by blast
  from c recs have "db' =
     Some [\<lparr>PType = ''p'', V0 = ''alice'', V1 = ''data1'', V2 = ''read'', V3 = [], V4 = [], V5 = []\<rparr>,
           \<lparr>PType = ''g'', V0 = ''alice'', V1 = ''admin'', V2 = [], V3 = [], V4 = [], V5 = []\<rparr>]"
    by (cases db') (simp_all add: contents_def)
  with run h1 h2 h3 show ?thesis by simp
qed

text \<open>
  C8. Each of AddPolicy, RemovePolicy and RemoveFilteredPolicy, whatever its arguments,
  returns the error "not implemented" and leaves the store as it was.
\<close>

theorem mutation_stubs_not_implemented:
  "AddPolicy a sec ptype rule db = (Some ''not implemented'', db) \<and>
   RemovePolicy a sec ptype rule db = (Some ''not implemented'', db) \<and>
   RemoveFilteredPolicy a sec ptype fieldIndex fieldValues db = (Some ''not implemented'', db)"
  by (simp add: AddPolicy_def RemovePolicy_def RemoveFilteredPolicy_def)

theorem mutation_stubs_not_implemented_witness:
  "fst (AddPolicy open_adapter ''p'' ''p'' [''alice'', ''data1'', ''read''] None) =
     Some ''not implemented'' \<and>
   snd (RemovePolicy open_adapter ''p'' ''p'' [''alice'', ''data1'', ''read'']
     (Some [\<lparr>PType = ''p'', V0 = ''alice'', V1 = ''data1'', V2 = ''read'', V3 = [], V4 = [], V5 = []\<rparr>])) =
     Some [\<lparr>PType = ''p'', V0 = ''alice'', V1 = ''data1'', V2 = ''read'', V3 = [], V4 = [], V5 = []\<rparr>] \<and>
   RemoveFilteredPolicy open_adapter ''p'' ''p'' 0 [''alice''] None =
     (Some ''not implemented'', None)"
  using mutation_stubs_not_implemented
    [of open_adapter "''p''" "''p''" "[''alice'', ''data1'', ''read'']" None 0 "[''alice'']"]
    mutation_stubs_not_implemented
    [of open_adapter "''p''" "''p''" "[''alice'', ''data1'', ''read'']"
     "Some [\<lparr>PType = ''p'', V0 = ''alice'', V1 = ''data1'', V2 = ''read'', V3 = [], V4 = [], V5 = []\<rparr>]"
     0 "[]"]
  by simp

text \<open>
  C9. On a collection that does not exist (the driver reports "ns not found"), dropTable
  returns normally; so it does on a nil handle, and after a drop that succeeds. Any other
  error of the drop is raised as a panic that carries it.
\<close>

theorem dropTable_tolerates_missing_collection:
  "(collection a \<noteq> None \<longrightarrow> dropTable None a None = Inr None) \<and>
   (collection a \<noteq> None \<longrightarrow> dropTable None a (Some ds) = Inr None) \<and>
   (collection a = None \<longrightarrow> dropTable fault a db = Inr db) \<and>
   (collection a \<noteq> None \<and> DropCollection fault db = (Some ''ns not found'', db') \<longrightarrow>
      dropTable fault a db = Inr db') \<and>
   (collection a \<noteq> None \<and> DropCollection fault db = (Some msg, db') \<and>
    msg \<noteq> ''ns not found'' \<longrightarrow> dropTable fault a db = Inl (PanicErr msg))"
proof (intro conjI impI)
  show "dropTable None a None = Inr None" if "collection a \<noteq> None"
    using that by (rule dropTable_no_fault)
  show "dropTable None a (Some ds) = Inr None" if "collection a \<noteq> None"
    using that by (rule dropTable_no_fault)
  show "dropTable fault a db = Inr db" if "collection a = None"
    using that by (rule dropTable_nil_handle)
  show "dropTable fault a db = Inr db'"
    if "collection a \<noteq> None \<and> DropCollection fault db = (Some ''ns not found'', db')"
    using that by (auto simp: dropTable_def)
  show "dropTable fault a db = Inl (PanicErr msg)"
    if "collection a \<noteq> None \<and> DropCollection fault db = (Some msg, db') \<and>
        msg \<noteq> ''ns not found''"
    using that by (simp add: dropTable_other_error)
qed

theorem dropTable_tolerates_missing_collection_witness:
  "collection open_adapter \<noteq> None \<and>
   DropCollection None None = (Some ''ns not found'', None) \<and>
   dropTable None open_adapter None = Inr None \<and>
   DropCollection (Some ''not authorized'') (Some []) = (Some ''not authorized'', Some []) \<and>
   ''not authorized'' \<noteq> ''ns not found'' \<and>
   dropTable (Some ''not authorized'') open_adapter (Some []) = Inl (PanicErr ''not authorized'')"
proof -
  have h: "collection open_adapter \<noteq> None" by (simp add: open_adapter_def)
  have d1: "DropCollection None None = (Some ''ns not found'', None)"
    by (simp add: DropCollection_def)
  have d2: "DropCollection (Some ''not authorized'') (Some []) = (Some ''not authorized'', Some [])"
    by (simp add: DropCollection_def)
  have ne: "''not authorized'' \<noteq> ''ns not found''" by simp
  from dropTable_tolerates_missing_collection
    [where a = open_adapter and fault = None and db = None and db' = None] h d1
  have r1: "dropTable None open_adapter None = Inr None" by blast
  from dropTable_tolerates_missing_collection
    [where a = open_adapter and fault = "Some ''not authorized''" and db = "Some []"
      and db' = "Some []" and msg = "''not authorized''"]
    h d2 ne
  have r2: "dropTable (Some ''not authorized'') open_adapter (Some []) =
    Inl (PanicErr ''not authorized'')" by blast
  show ?thesis using h d1 d2 ne r1 r2 by (intro conjI)
qed

section \<open>Save, then load\<close>

text \<open>A write through an entry adds one rule to the rules of the model.\<close>

lemma rule_pairs_assign:
  assumes "map_of am key = Some ast"
  shows "mset (rule_pairs (assign key (ast\<lparr>Policy := Policy ast @ [tokens]\<rparr>) am)) =
    mset (rule_pairs am) + {#(key, tokens)#}"
  using assms
proof (induction am)
  case Nil
  then show ?case by simp
next
  case (Cons entry am)
  obtain k v where entry: "entry = (k, v)"
    by (cases entry)
  show ?case
  proof (cases "k = key")
    case True
    then have "v = ast"
      using Cons.prems by (simp add: entry)
    then show ?thesis
      using True by (simp add: entry rule_pairs_def)
  next
    case False
    then have "map_of am key = Some ast"
      using Cons.prems by (simp add: entry)
    then have "mset (rule_pairs (assign key (ast\<lparr>Policy := Policy ast @ [tokens]\<rparr>) am)) =
      mset (rule_pairs am) + {#(key, tokens)#}"
      by (rule Cons.IH)
    then show ?thesis
      using False by (simp add: entry rule_pairs_def)
  qed
qed

lemma policy_rules_store_assertion:
  assumes "sec = ''p'' \<or> sec = ''g''" and "assertion_at model sec key = Some ast"
  shows "policy_rules (store_assertion model sec key (ast\<lparr>Policy := Policy ast @ [tokens]\<rparr>)) =
    policy_rules model + {#(key, tokens)#}"
proof -
  have "map_of (section_of model sec) key = Some ast"
    using assms(2) by (simp add: assertion_at_def)
  then have step: "mset (rule_pairs (assign key (ast\<lparr>Policy := Policy ast @ [tokens]\<rparr>)
        (section_of model sec))) = mset (rule_pairs (section_of model sec)) + {#(key, tokens)#}"
    by (rule rule_pairs_assign)
  from assms(1) show ?thesis
  proof
    assume "sec = ''p''"
    then show ?thesis
      using step by (simp add: policy_rules_def section_of_store_assertion)
  next
    assume "sec = ''g''"
    then show ?thesis
      using step by (simp add: policy_rules_def section_of_store_assertion)
  qed
qed

text \<open>
  A record that \<^verbatim>\<open>LoadPolicy\<close> can file in a model: its ptype starts with p or g, and the
  model holds its assertion.
\<close>

lemma LoadPolicy_loop_rules:
  assumes "\<forall>d \<in> set ds. (take 1 (PType d) = ''p'' \<or> take 1 (PType d) = ''g'') \<and>
             assertion_at model (take 1 (PType d)) (PType d) \<noteq> None"
  shows "\<exists>model'. LoadPolicy_loop ds model = Inr model' \<and>
    policy_rules model' = policy_rules model + mset (map (\<lambda>d. (PType d, fields_spec d)) ds)"
  using assms
proof (induction ds arbitrary: model)
  case Nil
  then show ?case by simp
next
  case (Cons d ds)
  let ?sec = "take 1 (PType d)"
  from Cons.prems have sec: "?sec = ''p'' \<or> ?sec = ''g''"
    and decl: "assertion_at model ?sec (PType d) \<noteq> None"
    by simp_all
  from sec have ne: "PType d \<noteq> []"
    by auto
  from decl obtain ast where ast: "assertion_at model ?sec (PType d) = Some ast"
    by blast
  define model1 where
    "model1 = store_assertion model ?sec (PType d) (ast\<lparr>Policy := Policy ast @ [fields_spec d]\<rparr>)"
  have step: "loadPolicyLine d model = Inr model1"
    unfolding model1_def using ne ast by (rule loadPolicyLine_files)
  have rules1: "policy_rules model1 = policy_rules model + {#(PType d, fields_spec d)#}"
    unfolding model1_def using sec ast by (rule policy_rules_store_assertion)
  have keep: "assertion_at model1 s k \<noteq> None" if "assertion_at model s k \<noteq> None" for s k
    using that unfolding model1_def assertion_at_store_assertion [OF ast] by simp
  have "\<forall>d' \<in> set ds. (take 1 (PType d') = ''p'' \<or> take 1 (PType d') = ''g'') \<and>
             assertion_at model1 (take 1 (PType d')) (PType d') \<noteq> None"
    using Cons.prems keep by simp
  then obtain model' where run: "LoadPolicy_loop ds model1 = Inr model'"
    and rules: "policy_rules model' =
      policy_rules model1 + mset (map (\<lambda>d. (PType d, fields_spec d)) ds)"
    using Cons.IH by blast
  have "LoadPolicy_loop (d # ds) model = Inr model'"
    using step run by (simp add: and_then_def)
  moreover have "policy_rules model' =
    policy_rules model + mset (map (\<lambda>d. (PType d, fields_spec d)) (d # ds))"
    using rules rules1 by simp
  ultimately show ?case by blast
qed

text \<open>The records of a storable section: what they hold and how they decode.\<close>

lemma section_records_member:
  assumes "storable_section sec am" and "d \<in> set (section_records am)"
  shows "take 1 (PType d) = sec \<and> map_of am (PType d) \<noteq> None"
proof -
  from assms(2) obtain ptype ast rule where entry: "(ptype, ast) \<in> set am"
    and d: "d = encode_spec ptype rule"
    by (auto simp: section_records_def)
  from assms(1) entry have "take 1 ptype = sec"
    by (auto simp: storable_section_def list_all_iff)
  moreover have "map_of am ptype \<noteq> None"
    using entry by (simp add: map_of_eq_None_iff) (force intro: rev_image_eqI)
  ultimately show ?thesis
    by (simp add: d)
qed

lemma decode_section_records:
  assumes "storable_section sec am"
  shows "map (\<lambda>d. (PType d, fields_spec d)) (section_records am) = rule_pairs am"
  using assms
proof (induction am)
  case Nil
  then show ?case by (simp add: section_records_def rule_pairs_def)
next
  case (Cons entry am)
  obtain ptype ast where entry: "entry = (ptype, ast)"
    by (cases entry)
  from Cons.prems have rules: "\<forall>rule \<in> set (Policy ast). length rule \<le> 6 \<and> [] \<notin> set rule"
    and rest: "storable_section sec am"
    by (simp_all add: entry storable_section_def storable_rule_def list_all_iff)
  have "map (\<lambda>d. (PType d, fields_spec d)) (map (encode_spec ptype) (Policy ast)) =
    map (Pair ptype) (Policy ast)"
    using rules by (simp add: fields_spec_encode_storable)
  moreover have "map (\<lambda>d. (PType d, fields_spec d)) (section_records am) = rule_pairs am"
    using rest by (rule Cons.IH)
  ultimately show ?case
    by (simp add: entry section_records_def rule_pairs_def)
qed

lemma declares_map_of:
  assumes "declares fresh sec am" and "map_of am ptype \<noteq> None"
  shows "assertion_at fresh sec ptype \<noteq> None"
proof -
  from assms(2) obtain ast where "(ptype, ast) \<in> set am"
    by (auto dest: map_of_SomeD)
  then show ?thesis
    using assms(1) by (auto simp: declares_def list_all_iff)
qed

text \<open>
  C3, as amended. Take a policy model whose rules in the sections "p" and "g" have at
  most six fields, none of them empty, under policy types that start with the name of their
  section, and a fresh model that declares these policy types and holds no rule. When the
  handle of the collection is set and the driver reports no fault, SavePolicy returns no
  error, and LoadPolicy on any full scan of the collection it leaves, in whatever order the
  scan delivers the records, returns no error and fills the fresh model with the same
  multiset of pairs (ptype, fields) as the given model.
\<close>

theorem SavePolicy_LoadPolicy_roundtrip:
  assumes "storable_model model" and "fresh_for model fresh"
    and "collection a \<noteq> None" and "drop_fault env = None" and "insert_fault env = None"
  shows "\<exists>db'. SavePolicy env a model db = Inr (None, db') \<and>
    (\<forall>iter. full_scan db' iter \<longrightarrow>
       (\<exists>fresh'. LoadPolicy iter a fresh = Inr (None, fresh') \<and>
          policy_rules fresh' = policy_rules model))"
proof -
  let ?p = "section_of model ''p''" and ?g = "section_of model ''g''"
  let ?lines = "section_records ?p @ section_records ?g"
  let ?decode = "\<lambda>d. (PType d, fields_spec d)"
  define db' where "db' = write_docs ?lines None"
  have save: "SavePolicy env a model db = Inr (None, db')"
    unfolding db'_def using assms(3-5) by (rule SavePolicy_no_fault)
  have sp: "storable_section ''p'' ?p" and sg: "storable_section ''g'' ?g"
    using assms(1) by (simp_all add: storable_model_def)
  have dp: "declares fresh ''p'' ?p" and dg: "declares fresh ''g'' ?g"
    and empty: "policy_rules fresh = {#}"
    using assms(2) by (simp_all add: fresh_for_def)
  have load: "\<exists>fresh'. LoadPolicy iter a fresh = Inr (None, fresh') \<and>
          policy_rules fresh' = policy_rules model" if scan: "full_scan db' iter" for iter
  proof -
    have "contents db' = ?lines"
      unfolding db'_def by (rule contents_write_docs_None)
    with scan have perm: "mset (docs iter) = mset ?lines" and close: "close_err iter = None"
      unfolding full_scan_def by simp_all
    have files: "(take 1 (PType d) = ''p'' \<or> take 1 (PType d) = ''g'') \<and>
        assertion_at fresh (take 1 (PType d)) (PType d) \<noteq> None" if "d \<in> set (docs iter)" for d
    proof -
      from perm have "set (docs iter) = set ?lines"
        by (rule mset_eq_setD)
      with that have "d \<in> set ?lines"
        by simp
      then consider "d \<in> set (section_records ?p)" | "d \<in> set (section_records ?g)"
        by auto
      then show ?thesis
      proof cases
        case 1
        with sp have "take 1 (PType d) = ''p'' \<and> map_of ?p (PType d) \<noteq> None"
          by (rule section_records_member)
        then show ?thesis
          using declares_map_of [OF dp] by simp
      next
        case 2
        with sg have "take 1 (PType d) = ''g'' \<and> map_of ?g (PType d) \<noteq> None"
          by (rule section_records_member)
        then show ?thesis
          using declares_map_of [OF dg] by simp
      qed
    qed
    then obtain fresh' where run: "LoadPolicy_loop (docs iter) fresh = Inr fresh'"
      and rules: "policy_rules fresh' = policy_rules fresh + mset (map ?decode (docs iter))"
      using LoadPolicy_loop_rules [of "docs iter" fresh] by blast
    have dl: "map ?decode ?lines = rule_pairs ?p @ rule_pairs ?g"
      unfolding map_append decode_section_records [OF sp] decode_section_records [OF sg] ..
    have "mset (map ?decode (docs iter)) = image_mset ?decode (mset (docs iter))"
      by (rule mset_map)
    also have "\<dots> = image_mset ?decode (mset ?lines)"
      by (simp only: perm)
    also have "\<dots> = mset (map ?decode ?lines)"
      by (rule mset_map [symmetric])
    also have "\<dots> = mset (rule_pairs ?p) + mset (rule_pairs ?g)"
      unfolding dl by (rule mset_append)
    finally have decoded: "mset (map ?decode (docs iter)) =
      mset (rule_pairs ?p) + mset (rule_pairs ?g)" .
    have "policy_rules fresh' = {#} + (mset (rule_pairs ?p) + mset (rule_pairs ?g))"
      using rules by (simp only: decoded empty)
    also have "\<dots> = policy_rules model"
      by (simp add: policy_rules_def)
    finally have "policy_rules fresh' = policy_rules model" .
    moreover have "LoadPolicy iter a fresh = Inr (None, fresh')"
      using run close assms(3) by (simp add: LoadPolicy_def and_then_def)
    ultimately show ?thesis by blast
  qed
  from save load show ?thesis by blast
qed

theorem SavePolicy_LoadPolicy_roundtrip_witness:
  "storable_model scenario_model \<and> fresh_for scenario_model empty_model \<and>
   collection open_adapter \<noteq> None \<and> drop_fault no_faults = None \<and>
   insert_fault no_faults = None \<and>
   SavePolicy no_faults open_adapter scenario_model None =
     Inr (None,
       Some [\<lparr>PType = ''p'', V0 = ''alice'', V1 = ''data1'', V2 = ''read'', V3 = [], V4 = [], V5 = []\<rparr>,
             \<lparr>PType = ''g'', V0 = ''alice'', V1 = ''admin'', V2 = [], V3 = [], V4 = [], V5 = []\<rparr>]) \<and>
   LoadPolicy
     \<lparr>docs =
        [\<lparr>PType = ''g'', V0 = ''alice'', V1 = ''admin'', V2 = [], V3 = [], V4 = [], V5 = []\<rparr>,
         \<lparr>PType = ''p'', V0 = ''alice'', V1 = ''data1'', V2 = ''read'', V3 = [], V4 = [], V5 = []\<rparr>],
      close_err = None\<rparr>
     open_adapter empty_model =
     Inr (None,
       [(''p'', [(''p'', \<lparr>Policy = [[''alice'', ''data1'', ''read'']]\<rparr>)]),
        (''g'', [(''g'', \<lparr>Policy = [[''alice'', ''admin'']]\<rparr>)])]) \<and>
   policy_rules
     [(''p'', [(''p'', \<lparr>Policy = [[''alice'', ''data1'', ''read'']]\<rparr>)]),
      (''g'', [(''g'', \<lparr>Policy = [[''alice'', ''admin'']]\<rparr>)])] =
   policy_rules scenario_model"
proof -
  let ?lp = "\<lparr>PType = ''p'', V0 = ''alice'', V1 = ''data1'', V2 = ''read'', V3 = [], V4 = [], V5 = []\<rparr>"
  let ?lg = "\<lparr>PType = ''g'', V0 = ''alice'', V1 = ''admin'', V2 = [], V3 = [], V4 = [], V5 = []\<rparr>"
  let ?iter = "\<lparr>docs = [?lg, ?lp], close_err = None\<rparr>"
  let ?loaded = "[(''p'', [(''p'', \<lparr>Policy = [[''alice'', ''data1'', ''read'']]\<rparr>)]),
                  (''g'', [(''g'', \<lparr>Policy = [[''alice'', ''admin'']]\<rparr>)])]"
  have h1: "storable_model scenario_model"
    by (simp add: storable_model_def storable_section_def storable_rule_def section_of_def
        scenario_model_def)
  have h2: "fresh_for scenario_model empty_model"
    by (simp add: fresh_for_def policy_rules_def rule_pairs_def declares_def assertion_at_def
        section_of_def scenario_model_def empty_model_def)
  have h3: "collection open_adapter \<noteq> None" by (simp add: open_adapter_def)
  have h4: "drop_fault no_faults = None" by (simp add: no_faults_def)
  have h5: "insert_fault no_faults = None" by (simp add: no_faults_def)
  have save: "SavePolicy no_faults open_adapter scenario_model None = Inr (None, Some [?lp, ?lg])"
    by (simp add: SavePolicy_no_fault [OF h3 h4 h5] section_records_def section_of_def
        scenario_model_def encode_spec_def write_docs_def contents_def)
  have load: "LoadPolicy ?iter open_adapter empty_model = Inr (None, ?loaded)"
    by code_simp
  have scan: "full_scan (Some [?lp, ?lg]) ?iter"
    by (simp add: full_scan_def contents_def)
  from SavePolicy_LoadPolicy_roundtrip [OF h1 h2 h3 h4 h5, of None]
  obtain db' where s: "SavePolicy no_faults open_adapter scenario_model None = Inr (None, db')"
    and every: "\<forall>iter. full_scan db' iter \<longrightarrow>
       (\<exists>fresh'. LoadPolicy iter open_adapter empty_model = Inr (None, fresh') \<and>
          policy_rules fresh' = policy_rules scenario_model)"
    by blast
  from s save have "db' = Some [?lp, ?lg]"
    by simp
  with every scan obtain fresh' where
    l: "LoadPolicy ?iter open_adapter empty_model = Inr (None, fresh')"
    and r: "policy_rules fresh' = policy_rules scenario_model"
    by blast
  from l load have "fresh' = ?loaded"
    by simp
  with r have same: "policy_rules ?loaded = policy_rules scenario_model"
    by simp
  show ?thesis
    using h1 h2 h3 h4 h5 save load same by (intro conjI)
qed

text \<open>
  C3 as stated fails on a model whose rule has seven fields, none of them empty: the record
  holds six of them, and the model that is loaded back holds a rule of six fields.
\<close>

theorem roundtrip_long_rule_counterexample:
  "[] \<notin> set [''a'', ''b'', ''c'', ''d'', ''e'', ''f'', ''g''] \<and>
   fresh_for long_rule_model empty_model \<and>
   SavePolicy no_faults open_adapter long_rule_model None =
     Inr (None,
       Some [\<lparr>PType = ''p'', V0 = ''a'', V1 = ''b'', V2 = ''c'', V3 = ''d'', V4 = ''e'', V5 = ''f''\<rparr>]) \<and>
   LoadPolicy
     \<lparr>docs = [\<lparr>PType = ''p'', V0 = ''a'', V1 = ''b'', V2 = ''c'', V3 = ''d'', V4 = ''e'', V5 = ''f''\<rparr>],
      close_err = None\<rparr>
     open_adapter empty_model =
     Inr (None,
       [(''p'', [(''p'', \<lparr>Policy = [[''a'', ''b'', ''c'', ''d'', ''e'', ''f'']]\<rparr>)]),
        (''g'', [(''g'', \<lparr>Policy = []\<rparr>)])]) \<and>
   policy_rules
     [(''p'', [(''p'', \<lparr>Policy = [[''a'', ''b'', ''c'', ''d'', ''e'', ''f'']]\<rparr>)]),
      (''g'', [(''g'', \<lparr>Policy = []\<rparr>)])] \<noteq>
   policy_rules long_rule_model"
proof -
  have h3: "collection open_adapter \<noteq> None" by (simp add: open_adapter_def)
  have h4: "drop_fault no_faults = None" by (simp add: no_faults_def)
  have h5: "insert_fault no_faults = None" by (simp add: no_faults_def)
  have c1: "[] \<notin> set [''a'', ''b'', ''c'', ''d'', ''e'', ''f'', ''g'']"
    by simp
  have c2: "fresh_for long_rule_model empty_model"
    by (simp add: fresh_for_def policy_rules_def rule_pairs_def declares_def assertion_at_def
        section_of_def long_rule_model_def empty_model_def)
  have c3: "SavePolicy no_faults open_adapter long_rule_model None =
     Inr (None,
       Some [\<lparr>PType = ''p'', V0 = ''a'', V1 = ''b'', V2 = ''c'', V3 = ''d'', V4 = ''e'', V5 = ''f''\<rparr>])"
    by (simp add: SavePolicy_no_fault [OF h3 h4 h5] section_records_def section_of_def
        long_rule_model_def encode_spec_def write_docs_def contents_def)
  have c4: "LoadPolicy
     \<lparr>docs = [\<lparr>PType = ''p'', V0 = ''a'', V1 = ''b'', V2 = ''c'', V3 = ''d'', V4 = ''e'', V5 = ''f''\<rparr>],
      close_err = None\<rparr>
     open_adapter empty_model =
     Inr (None,
       [(''p'', [(''p'', \<lparr>Policy = [[''a'', ''b'', ''c'', ''d'', ''e'', ''f'']]\<rparr>)]),
        (''g'', [(''g'', \<lparr>Policy = []\<rparr>)])])"
    by code_simp
  have c5: "policy_rules
     [(''p'', [(''p'', \<lparr>Policy = [[''a'', ''b'', ''c'', ''d'', ''e'', ''f'']]\<rparr>)]),
      (''g'', [(''g'', \<lparr>Policy = []\<rparr>)])] \<noteq>
   policy_rules long_rule_model"
    by (simp add: policy_rules_def rule_pairs_def section_of_def long_rule_model_def)
  show ?thesis
    using c1 c2 c3 c4 c5 by (intro conjI)
qed

end
